theory Spec2Isabelle
  imports Complex_Main
begin


section \<open>Exceptions\<close>

text \<open>
  The script defines no exception class of its own: every failure is raised by a library
  it calls. \<open>RequestException\<close> is what \<^verbatim>\<open>requests.get\<close> raises when the
  transport fails, \<open>ParseError\<close> what \<^verbatim>\<open>et.fromstring\<close> raises on a malformed
  document, \<open>AttributeError\<close> what \<^verbatim>\<open>.text\<close> or \<^verbatim>\<open>.strip()\<close> raise on
  \<^verbatim>\<open>None\<close>, \<open>FileNotFoundError\<close> what \<^verbatim>\<open>os.listdir\<close> and
  \<^verbatim>\<open>open\<close> raise for a missing directory, \<open>ValueError\<close> what pandas raises
  (\<^verbatim>\<open>pd.cut\<close>, \<^verbatim>\<open>pd.read_xml\<close>, \<^verbatim>\<open>pd.concat\<close>), and
  \<open>KeyError\<close> what a label lookup in a Series raises.
\<close>

datatype error =
    RequestException
  | ParseError
  | AttributeError
  | FileNotFoundError
  | ValueError
  | KeyError

section \<open>Numbers of numpy\<close>

text \<open>
  A float64 result is a finite number, NaN or infinity. Finite values are kept as exact
  rationals: rounding is not part of this model. Dividing by zero raises nothing in
  numpy: \<^verbatim>\<open>0 / 0\<close> is NaN and \<^verbatim>\<open>c / 0\<close> is infinity for a positive count.
\<close>

datatype npfloat = Num rat | NaN | PosInf

definition np_truediv :: "nat \<Rightarrow> nat \<Rightarrow> npfloat" where
  "np_truediv c t =
     (if t = 0 then (if c = 0 then NaN else PosInf) else Num (rat_of_nat c / rat_of_nat t))"

definition np_times100 :: "npfloat \<Rightarrow> npfloat" where
  "np_times100 x = (case x of Num r \<Rightarrow> Num (r * 100) | NaN \<Rightarrow> NaN | PosInf \<Rightarrow> PosInf)"

fun np_add :: "npfloat \<Rightarrow> npfloat \<Rightarrow> npfloat" where
  "np_add (Num a) (Num b) = Num (a + b)"
| "np_add NaN _ = NaN"
| "np_add (Num a) NaN = NaN"
| "np_add PosInf NaN = NaN"
| "np_add (Num a) PosInf = PosInf"
| "np_add PosInf (Num b) = PosInf"
| "np_add PosInf PosInf = PosInf"

text \<open>The sum of a sequence of floats, as the spec's suffix sum reads it.\<close>

definition np_sum :: "npfloat list \<Rightarrow> npfloat" where
  "np_sum xs = foldr np_add xs (Num 0)"

section \<open>Bin edges\<close>

text \<open>
  \<^verbatim>\<open>combined_df['score'].max()\<close> is the largest score, and NaN for a frame with no
  rows; \<^verbatim>\<open>+ 1\<close> keeps a NaN.
\<close>

datatype edge = Edge int | NaNEdge

fun score_max :: "int list \<Rightarrow> edge" where
  "score_max [] = NaNEdge"
| "score_max (s # scores) = Edge (fold max scores s)"

fun edge_succ :: "edge \<Rightarrow> edge" where
  "edge_succ (Edge k) = Edge (k + 1)"
| "edge_succ NaNEdge = NaNEdge"

section \<open>pd.cut with right=False\<close>

text \<open>
  \<^verbatim>\<open>pd.cut\<close> first checks that the bins increase. Releases of pandas differ on a
  NaN edge: the older test \<^verbatim>\<open>(np.diff(bins) < 0).any()\<close> lets a NaN through (no
  comparison with NaN is true), the newer \<^verbatim>\<open>Index(bins).is_monotonic_increasing\<close>
  fails on one. The flag \<open>nan_ok\<close> is the release: true for the older test. Both
  accept equal neighbours; those are refused next, as duplicate edges.
\<close>

fun edge_pair_ok :: "bool \<Rightarrow> edge \<Rightarrow> edge \<Rightarrow> bool" where
  "edge_pair_ok nan_ok (Edge a) (Edge b) = (a \<le> b)"
| "edge_pair_ok nan_ok _ _ = nan_ok"

fun bins_monotonic :: "bool \<Rightarrow> edge list \<Rightarrow> bool" where
  "bins_monotonic nan_ok (a # b # bins) =
     (edge_pair_ok nan_ok a b \<and> bins_monotonic nan_ok (b # bins))"
| "bins_monotonic nan_ok _ = True"

text \<open>
  \<^verbatim>\<open>bins.searchsorted(x, side='right')\<close>: the number of leading edges that are at
  most \<open>x\<close>; NaN sorts after every number.
\<close>

fun edge_le :: "edge \<Rightarrow> int \<Rightarrow> bool" where
  "edge_le (Edge b) x = (b \<le> x)"
| "edge_le NaNEdge x = False"

definition searchsorted_right :: "edge list \<Rightarrow> int \<Rightarrow> nat" where
  "searchsorted_right bins x = length (takeWhile (\<lambda>b. edge_le b x) bins)"

text \<open>
  The category of one score: none (NaN in the categorical) when the index is 0 or the
  number of edges, that is below the first edge or at or above the last; else the label
  of the interval \<open>[bins[i-1], bins[i])\<close>.
\<close>

definition categorize :: "edge list \<Rightarrow> string list \<Rightarrow> int \<Rightarrow> string option" where
  "categorize bins labels x =
     (let i = searchsorted_right bins x
      in if i = 0 \<or> i = length bins then None else Some (labels ! (i - 1)))"

text \<open>
  \<^verbatim>\<open>pd.cut(x, bins=bins, labels=labels, right=False)\<close>. Every check raises
  ValueError: bins that do not increase, duplicate edges (unless there are exactly two
  edges), duplicate labels, and a number of labels other than the number of intervals.
  All of them come before any score is counted.
\<close>

definition pd_cut :: "bool \<Rightarrow> edge list \<Rightarrow> string list \<Rightarrow> int list \<Rightarrow> error + string option list" where
  "pd_cut nan_ok bins labels x =
     (if \<not> bins_monotonic nan_ok bins then Inl ValueError
      else if \<not> distinct bins \<and> length bins \<noteq> 2 then Inl ValueError
      else if \<not> distinct labels then Inl ValueError
      else if length labels + 1 \<noteq> length bins then Inl ValueError
      else Inr (map (categorize bins labels) x))"

section \<open>Counts per bin\<close>

text \<open>
  \<^verbatim>\<open>ranked_bins.value_counts().reindex(bin_labels)\<close>: the number of scores in each
  category (scores with no category are not counted), put in the order of the labels.
  A Series is a list of rows, label and value.
\<close>

definition rank_counts_of :: "string list \<Rightarrow> string option list \<Rightarrow> (string \<times> nat) list" where
  "rank_counts_of bin_labels ranked_bins =
     map (\<lambda>l. (l, count_list ranked_bins (Some l))) bin_labels"

definition series_sum :: "(string \<times> nat) list \<Rightarrow> nat" where
  "series_sum s = sum_list (map snd s)"

text \<open>
  Both plots start the same way, with their own lower bounds and labels: the edges are
  the lower bounds followed by \<^verbatim>\<open>max() + 1\<close>, the scores are cut, and the counts
  are taken.
\<close>

definition bin_edges_of :: "int list \<Rightarrow> int list \<Rightarrow> edge list" where
  "bin_edges_of lowers scores = map Edge lowers @ [edge_succ (score_max scores)]"

definition rank_counts :: "bool \<Rightarrow> int list \<Rightarrow> string list \<Rightarrow> int list \<Rightarrow> error + (string \<times> nat) list" where
  "rank_counts nan_ok lowers bin_labels scores =
     (case pd_cut nan_ok (bin_edges_of lowers scores) bin_labels scores of
        Inl e \<Rightarrow> Inl e
      | Inr ranked_bins \<Rightarrow> Inr (rank_counts_of bin_labels ranked_bins))"

section \<open>rivals2_plot\<close>

definition plot_lowers :: "int list" where
  "plot_lowers = [0, 400, 500, 600, 700, 800, 900, 1000, 1100, 1200, 1300, 1400, 1500]"

definition plot_labels :: "string list" where
  "plot_labels =
     [''Stone 0-399'', ''Stone 400-499'',
      ''Bronze 500-599'', ''Bronze 600-699'',
      ''Silver 700-799'', ''Silver 800-899'',
      ''Gold 900-999'', ''Gold 1000-1099'',
      ''Plat 1100-1199'', ''Plat 1200-1299'',
      ''Diamond 1300-1399'', ''Diamond 1400-1499'',
      ''Master 1500+'']"

text \<open>
  The percentage of one bar:
  \<^verbatim>\<open>(height / total_players) * 100 if total_players else 0\<close>.
\<close>

definition bar_percentage :: "nat \<Rightarrow> nat \<Rightarrow> npfloat" where
  "bar_percentage height total_players =
     (if total_players \<noteq> 0 then np_times100 (np_truediv height total_players) else Num 0)"

text \<open>
  What \<^verbatim>\<open>rivals2_plot\<close> computes for its bars: label, count and percentage of each
  bin, in the order of the labels. Drawing is left out.
\<close>

definition rivals2_plot :: "bool \<Rightarrow> int list \<Rightarrow> error + (string \<times> nat \<times> npfloat) list" where
  "rivals2_plot nan_ok scores =
     (case rank_counts nan_ok plot_lowers plot_labels scores of
        Inl e \<Rightarrow> Inl e
      | Inr rc \<Rightarrow>
          (let total_players = series_sum rc
           in Inr (map (\<lambda>(l, c). (l, c, bar_percentage c total_players)) rc)))"

section \<open>rivals2_line_plot\<close>

definition line_lowers :: "int list" where
  "line_lowers = [0, 500, 700, 900, 1100, 1300, 1500]"

definition line_labels :: "string list" where
  "line_labels =
     [''Stone'', ''Bronze'', ''Silver'', ''Gold'', ''Platinum'', ''Diamond'', ''Master'']"

text \<open>\<^verbatim>\<open>cumsum\<close>: the running sums of a sequence.\<close>

fun cumsum_from :: "nat \<Rightarrow> nat list \<Rightarrow> nat list" where
  "cumsum_from acc [] = []"
| "cumsum_from acc (x # xs) = (acc + x) # cumsum_from (acc + x) xs"

definition series_cumsum :: "(string \<times> nat) list \<Rightarrow> (string \<times> nat) list" where
  "series_cumsum s = zip (map fst s) (cumsum_from 0 (map snd s))"

text \<open>
  \<^verbatim>\<open>rank_counts[::-1].cumsum()[::-1] / total_players * 100\<close>: the rows reversed,
  summed up, reversed back, and each sum divided by the total, with no test of the total.
\<close>

definition cumulative_top_percentage :: "(string \<times> nat) list \<Rightarrow> nat \<Rightarrow> (string \<times> npfloat) list" where
  "cumulative_top_percentage rc total_players =
     map (\<lambda>(l, c). (l, np_times100 (np_truediv c total_players))) (rev (series_cumsum (rev rc)))"

text \<open>
  The percentage in a division's label:
  \<^verbatim>\<open>(rank_counts[bin_labels[i]] / total_players) * 100\<close>, with no test of the total.
\<close>

definition division_percentage :: "nat \<Rightarrow> nat \<Rightarrow> npfloat" where
  "division_percentage c total_players = np_times100 (np_truediv c total_players)"

text \<open>A Series read at a label: KeyError when the label is no row of it.\<close>

definition series_loc :: "(string \<times> 'a) list \<Rightarrow> string \<Rightarrow> error + 'a" where
  "series_loc s l = (case map_of s l of None \<Rightarrow> Inl KeyError | Some v \<Rightarrow> Inr v)"

definition division_label ::
  "(string \<times> nat) list \<Rightarrow> (string \<times> npfloat) list \<Rightarrow> nat \<Rightarrow> string
     \<Rightarrow> error + (string \<times> nat \<times> npfloat \<times> npfloat)" where
  "division_label rc ctp total_players l =
     (case series_loc rc l of
        Inl e \<Rightarrow> Inl e
      | Inr c \<Rightarrow>
          (case series_loc ctp l of
             Inl e \<Rightarrow> Inl e
           | Inr ctp_l \<Rightarrow> Inr (l, c, division_percentage c total_players, ctp_l)))"

text \<open>A loop that collects one result per round and stops at the first exception.\<close>

fun for_each :: "('a \<Rightarrow> error + 'b) \<Rightarrow> 'a list \<Rightarrow> error + 'b list" where
  "for_each f [] = Inr []"
| "for_each f (x # xs) =
     (case f x of
        Inl e \<Rightarrow> Inl e
      | Inr y \<Rightarrow> (case for_each f xs of Inl e \<Rightarrow> Inl e | Inr ys \<Rightarrow> Inr (y # ys)))"

text \<open>
  What \<^verbatim>\<open>rivals2_line_plot\<close> computes for its divisions: label, count, percentage
  and top percentage, one per \<open>i\<close> in \<^verbatim>\<open>range(len(bin_edges) - 1)\<close>. Drawing is left
  out.
\<close>

definition rivals2_line_plot ::
  "bool \<Rightarrow> int list \<Rightarrow> error + (string \<times> nat \<times> npfloat \<times> npfloat) list" where
  "rivals2_line_plot nan_ok scores =
     (case rank_counts nan_ok line_lowers line_labels scores of
        Inl e \<Rightarrow> Inl e
      | Inr rc \<Rightarrow>
          (let total_players = series_sum rc;
               ctp = cumulative_top_percentage rc total_players
           in for_each (\<lambda>i. division_label rc ctp total_players (line_labels ! i))
                [0 ..< length (bin_edges_of line_lowers scores) - 1]))"


section \<open>The leaderboard pages\<close>

text \<open>
  What \<^verbatim>\<open>requests.get(url)\<close> does: it raises when the transport fails, and
  otherwise returns a response with a status code and a body. The script reads the
  body (\<^verbatim>\<open>.text\<close>) and never looks at the status code.
\<close>

datatype response = ConnectionFailed | Response nat string

text \<open>One \<^verbatim>\<open>entry\<close> element of a page: a row of the leaderboard.\<close>

record entry =
  rank :: int
  steamid :: string
  score :: int

text \<open>
  A parsed page. \<^verbatim>\<open>xml.find(tag)\<close> is \<^verbatim>\<open>None\<close> when the document has
  no such element, and the \<^verbatim>\<open>.text\<close> of an element is \<^verbatim>\<open>None\<close> when the
  element is empty: a field is \<open>None\<close>, \<open>Some None\<close> or \<open>Some (Some text)\<close>.
\<close>

record xml_page =
  entryStart :: "string option option"
  entryEnd :: "string option option"
  nextRequestURL :: "string option option"
  entries :: "entry list"

text \<open>
  What lies outside the script: the server behind \<^verbatim>\<open>requests.get\<close>, the XML
  parser (\<open>None\<close> for a text that is no well-formed document), and the order in which
  \<^verbatim>\<open>os.listdir\<close> enumerates a directory, which is arbitrary: the names come
  sorted by some key of the storage.
\<close>

record world =
  http_get :: "string \<Rightarrow> response"
  fromstring :: "string \<Rightarrow> xml_page option"
  dir_order :: "string \<Rightarrow> nat"

text \<open>
  The files the script owns: the directory \<^verbatim>\<open>./cache/xml/\<close> (\<open>None\<close> when it
  does not exist, else its files by name), the pickled frame \<^verbatim>\<open>./cache/df.pkl\<close>
  (\<open>None\<close> when it does not exist), and the log of the URLs requested so far, one per
  network call.
\<close>

record state =
  xml_cache :: "(string \<times> string) list option"
  df_cache :: "entry list option"
  requested :: "string list"

definition GAME_ID :: string where
  "GAME_ID = ''2217000''"

definition LEADERBOARD_ID :: string where
  "LEADERBOARD_ID = ''14800950''"

definition leaderboard_url :: string where
  "leaderboard_url =
     ''https://steamcommunity.com/stats/'' @ GAME_ID @ ''/leaderboards/'' @ LEADERBOARD_ID
       @ ''/?xml=1''"

text \<open>\<^verbatim>\<open>str.strip()\<close>: white space removed at both ends (the ASCII white space).\<close>

definition is_space :: "char \<Rightarrow> bool" where
  "is_space c = (let n = (of_char c :: nat) in (9 \<le> n \<and> n \<le> 13) \<or> (28 \<le> n \<and> n \<le> 32))"

definition strip :: "string \<Rightarrow> string" where
  "strip s = rev (dropWhile is_space (rev (dropWhile is_space s)))"

text \<open>\<^verbatim>\<open>xml.find(tag).text.strip()\<close>: AttributeError on a missing or empty element.\<close>

definition find_text_strip :: "string option option \<Rightarrow> error + string" where
  "find_text_strip el =
     (case el of
        None \<Rightarrow> Inl AttributeError
      | Some None \<Rightarrow> Inl AttributeError
      | Some (Some t) \<Rightarrow> Inr (strip t))"

text \<open>
  \<^verbatim>\<open>xml.find("nextRequestURL").text.strip() if xml.find("nextRequestURL") is not None else None\<close>
\<close>

definition next_request_url :: "string option option \<Rightarrow> error + string option" where
  "next_request_url el =
     (case el of
        None \<Rightarrow> Inr None
      | Some None \<Rightarrow> Inl AttributeError
      | Some (Some t) \<Rightarrow> Inr (Some (strip t)))"

text \<open>
  The file of a page, \<^verbatim>\<open>f'{XML_CACHE}/{start}-{end}.xml'\<close>, by its name in the
  directory. The two texts are taken to hold no path separator, as ranks do.
\<close>

definition page_file :: "string \<Rightarrow> string \<Rightarrow> string" where
  "page_file start end' = start @ ''-'' @ end' @ ''.xml''"

text \<open>\<^verbatim>\<open>open(path, 'w')\<close> and \<^verbatim>\<open>write\<close>: a file of that name is replaced.\<close>

fun write_file :: "string \<Rightarrow> string \<Rightarrow> (string \<times> string) list \<Rightarrow> (string \<times> string) list" where
  "write_file name content [] = [(name, content)]"
| "write_file name content ((n, c) # files) =
     (if n = name then (name, content) # files else (n, c) # write_file name content files)"

section \<open>download_xml\<close>

text \<open>
  One round of the loop of \<^verbatim>\<open>download_xml\<close>: the request, the parse, the two range
  texts, the file written, and then the next URL. The result is the next URL or the
  exception raised, with the state as the round left it.
\<close>

definition download_step :: "world \<Rightarrow> string \<Rightarrow> state \<Rightarrow> (error + string option) \<times> state" where
  "download_step W next_url st =
     (let st1 = st\<lparr>requested := requested st @ [next_url]\<rparr>
      in case http_get W next_url of
           ConnectionFailed \<Rightarrow> (Inl RequestException, st1)
         | Response status xml_raw \<Rightarrow>
             (case fromstring W xml_raw of
                None \<Rightarrow> (Inl ParseError, st1)
              | Some xml \<Rightarrow>
                  (case find_text_strip (entryStart xml) of
                     Inl e \<Rightarrow> (Inl e, st1)
                   | Inr start \<Rightarrow>
                       (case find_text_strip (entryEnd xml) of
                          Inl e \<Rightarrow> (Inl e, st1)
                        | Inr end' \<Rightarrow>
                            (case xml_cache st1 of
                               None \<Rightarrow> (Inl FileNotFoundError, st1)
                             | Some files \<Rightarrow>
                                 (next_request_url (nextRequestURL xml),
                                  st1\<lparr>xml_cache :=
                                    Some (write_file (page_file start end') xml_raw files)\<rparr>))))))"

text \<open>
  \<^verbatim>\<open>while next_url is not None\<close>. Nothing bounds the loop but the server, so the
  result is \<open>None\<close> when the loop never ends.
\<close>

partial_function (option) download_loop ::
  "world \<Rightarrow> string option \<Rightarrow> state \<Rightarrow> ((error + unit) \<times> state) option" where
  "download_loop W next_url st =
     (case next_url of
        None \<Rightarrow> Some (Inr (), st)
      | Some url \<Rightarrow>
          (case download_step W url st of
             (Inl e, st') \<Rightarrow> Some (Inl e, st')
           | (Inr next_url', st') \<Rightarrow> download_loop W next_url' st'))"

definition download_xml :: "world \<Rightarrow> state \<Rightarrow> ((error + unit) \<times> state) option" where
  "download_xml W st = download_loop W (Some leaderboard_url) st"

section \<open>get_leaderboard_xml\<close>

text \<open>\<^verbatim>\<open>os.makedirs(os.path.dirname(XML_CACHE), exist_ok=True)\<close>\<close>

definition makedirs :: "state \<Rightarrow> state" where
  "makedirs st = (case xml_cache st of None \<Rightarrow> st\<lparr>xml_cache := Some []\<rparr> | Some files \<Rightarrow> st)"

text \<open>\<^verbatim>\<open>os.listdir(XML_CACHE)\<close>\<close>

definition listdir :: "world \<Rightarrow> state \<Rightarrow> error + string list" where
  "listdir W st =
     (case xml_cache st of
        None \<Rightarrow> Inl FileNotFoundError
      | Some files \<Rightarrow> Inr (sort_key (dir_order W) (map fst files)))"

definition get_leaderboard_xml :: "world \<Rightarrow> state \<Rightarrow> ((error + unit) \<times> state) option" where
  "get_leaderboard_xml W st =
     (let st1 = makedirs st
      in case listdir W st1 of
           Inl e \<Rightarrow> Some (Inl e, st1)
         | Inr names \<Rightarrow> if length names = 0 then download_xml W st1 else Some (Inr (), st1))"

section \<open>xml_to_df and get_leaderboard_df\<close>





section \<open>Fetch sequences\<close>

text \<open>
  A page as one round of the loop takes it: the URL it was asked at, its two range
  texts, its raw text and the URL that follows (\<open>None\<close> on the last page).
\<close>

record page =
  p_url :: string
  p_start :: string
  p_end :: string
  p_raw :: string
  p_next :: "string option"

text \<open>
  The page the server gives at a URL, when the request, the parse and the three fields
  all go through; whatever the status code.
\<close>

definition page_at :: "world \<Rightarrow> string \<Rightarrow> page option" where
  "page_at W url =
     (case http_get W url of
        ConnectionFailed \<Rightarrow> None
      | Response status xml_raw \<Rightarrow>
          (case fromstring W xml_raw of
             None \<Rightarrow> None
           | Some xml \<Rightarrow>
               (case find_text_strip (entryStart xml) of
                  Inl e \<Rightarrow> None
                | Inr start \<Rightarrow>
                    (case find_text_strip (entryEnd xml) of
                       Inl e \<Rightarrow> None
                     | Inr end' \<Rightarrow>
                         (case next_request_url (nextRequestURL xml) of
                            Inl e \<Rightarrow> None
                          | Inr nxt \<Rightarrow>
                              Some \<lparr>p_url = url, p_start = start, p_end = end',
                                    p_raw = xml_raw, p_next = nxt\<rparr>)))))"

text \<open>
  A fetch sequence: from the locator \<open>loc\<close> the server gives the pages \<open>ps\<close> one
  after the other, each at the URL the one before names, and the last of them names
  \<open>fin\<close>.
\<close>

fun serves :: "world \<Rightarrow> string option \<Rightarrow> page list \<Rightarrow> string option \<Rightarrow> bool" where
  "serves W loc [] fin = (loc = fin)"
| "serves W loc (p # ps) fin =
     (case loc of None \<Rightarrow> False | Some url \<Rightarrow> page_at W url = Some p \<and> serves W (p_next p) ps fin)"

text \<open>The file of a page put in the directory.\<close>

definition store_page :: "page \<Rightarrow> (string \<times> string) list \<Rightarrow> (string \<times> string) list" where
  "store_page p files = write_file (page_file (p_start p) (p_end p)) (p_raw p) files"


section \<open>Example servers\<close>

text \<open>
  Three texts that parse: pages 1-2 and 3-4 of a leaderboard of four, the first naming
  the URL of the second, and a page 5-6 that names the URL of a further page.
\<close>

definition example_parser :: "string \<Rightarrow> xml_page option" where
  "example_parser t =
     (if t = ''<page 1-2>'' then
        Some \<lparr>entryStart = Some (Some ''1''), entryEnd = Some (Some '' 2 ''),
              nextRequestURL = Some (Some ''https://example.org/2''),
              entries = [\<lparr>rank = 1, steamid = ''a'', score = 10\<rparr>,
                         \<lparr>rank = 2, steamid = ''b'', score = 20\<rparr>]\<rparr>
      else if t = ''<page 3-4>'' then
        Some \<lparr>entryStart = Some (Some ''3''), entryEnd = Some (Some ''4''),
              nextRequestURL = None,
              entries = [\<lparr>rank = 3, steamid = ''c'', score = 30\<rparr>,
                         \<lparr>rank = 4, steamid = ''d'', score = 5\<rparr>]\<rparr>
      else if t = ''<page 3-4 of 6>'' then
        Some \<lparr>entryStart = Some (Some ''3''), entryEnd = Some (Some ''4''),
              nextRequestURL = Some (Some ''https://example.org/3''),
              entries = [\<lparr>rank = 3, steamid = ''c'', score = 30\<rparr>,
                         \<lparr>rank = 4, steamid = ''d'', score = 5\<rparr>]\<rparr>
      else None)"

text \<open>A server of two pages; the directory lists \<^verbatim>\<open>3-4.xml\<close> before \<^verbatim>\<open>1-2.xml\<close>.\<close>

definition two_page_server :: world where
  "two_page_server =
     \<lparr>http_get = (\<lambda>url. if url = leaderboard_url then Response 200 ''<page 1-2>''
                        else if url = ''https://example.org/2'' then Response 200 ''<page 3-4>''
                        else ConnectionFailed),
      fromstring = example_parser,
      dir_order = (\<lambda>name. if name = ''3-4.xml'' then 0 else 1)\<rparr>"

text \<open>A server of three pages where the request for the second fails in transport.\<close>

definition failing_server :: world where
  "failing_server =
     \<lparr>http_get = (\<lambda>url. if url = leaderboard_url then Response 200 ''<page 1-2>''
                        else ConnectionFailed),
      fromstring = example_parser,
      dir_order = (\<lambda>name. 0)\<rparr>"

text \<open>A server that answers the second request with status 500 and a page as its body.\<close>

definition status_500_server :: world where
  "status_500_server =
     \<lparr>http_get = (\<lambda>url. if url = leaderboard_url then Response 200 ''<page 1-2>''
                        else if url = ''https://example.org/2'' then Response 500 ''<page 3-4>''
                        else ConnectionFailed),
      fromstring = example_parser,
      dir_order = (\<lambda>name. 0)\<rparr>"

text \<open>A run that starts with no cache at all, and one that starts with an empty directory.\<close>

definition no_cache :: state where
  "no_cache = \<lparr>xml_cache = None, df_cache = None, requested = []\<rparr>"

definition empty_cache :: state where
  "empty_cache = \<lparr>xml_cache = Some [], df_cache = None, requested = []\<rparr>"

text \<open>A run that starts with the first page only in the directory: a partial cache.\<close>

definition partial_cache :: state where
  "partial_cache =
     \<lparr>xml_cache = Some [(''1-2.xml'', ''<page 1-2>'')], df_cache = None, requested = []\<rparr>"

text \<open>The two pages of the example, as the loop takes them.\<close>

definition page_1_2 :: page where
  "page_1_2 =
     \<lparr>p_url = leaderboard_url, p_start = ''1'', p_end = ''2'', p_raw = ''<page 1-2>'',
      p_next = Some ''https://example.org/2''\<rparr>"


section \<open>Binning: facts\<close>

subsection \<open>Running sums and suffix sums\<close>


lemma length_cumsum_from [simp]: "length (cumsum_from a xs) = length xs"
  by (induction xs arbitrary: a) simp_all




lemma length_cumulative_top_percentage [simp]:
  "length (cumulative_top_percentage rc t) = length rc"
  by (simp add: cumulative_top_percentage_def series_cumsum_def)


lemma np_sum_percentages_pos:
  "0 < t \<Longrightarrow> np_sum (map (\<lambda>c. division_percentage c t) cs)
     = Num (rat_of_nat (sum_list cs) / rat_of_nat t * 100)"
  by (induction cs)
     (simp_all add: np_sum_def division_percentage_def np_truediv_def np_times100_def
        add_divide_distrib distrib_right)



subsection \<open>The checks of the cut\<close>



lemma score_max_Max:
  assumes "scores \<noteq> []"
  shows "score_max scores = Edge (Max (set scores))"
proof (cases scores)
  case Nil
  with assms show ?thesis by simp
next
  case (Cons s rest)
  have "Max (set (s # rest)) = fold max rest s" by (rule Max.set_eq_fold)
  with Cons show ?thesis by simp
qed

lemma distinct_plot_labels: "distinct plot_labels"
  by (simp add: plot_labels_def)






subsection \<open>The rows of the line plot\<close>

lemma length_rank_counts_of [simp]: "length (rank_counts_of ls cats) = length ls"
  by (simp add: rank_counts_of_def)

lemma map_fst_rank_counts_of [simp]: "map fst (rank_counts_of ls cats) = ls"
  by (simp add: rank_counts_of_def comp_def)








text \<open>
  Claim C1. The empty dataset is not a guarded case. Its maximum is NaN, so the last edge
  is NaN. Where pandas lets that edge pass, the counts are 0 and
  \<^verbatim>\<open>rivals2_plot\<close> gives the percentage 0 through its test of the total, while
  \<^verbatim>\<open>rivals2_line_plot\<close> divides 0 by 0 and gives NaN for every percentage and
  every top percentage. Where pandas refuses the edge, both raise ValueError and there
  are no counts at all.
\<close>

theorem empty_dataset_not_guarded:
  "rivals2_line_plot True [] = Inr (map (\<lambda>l. (l, 0, NaN, NaN)) line_labels) \<and>
   rivals2_line_plot False [] = Inl ValueError \<and>
   rivals2_plot False [] = Inl ValueError \<and>
   rivals2_plot True [] = Inr (map (\<lambda>l. (l, 0, Num 0)) plot_labels)"
  by code_simp

text \<open>
  Claim C2. The last edge is the maximum score plus one, after the fixed lower bound
  1500: a dataset whose maximum is below 1500 gives edges that decrease (or repeat, at
  1499) and the cut raises ValueError, so no score of it is put in a bin. With lower
  bounds 0, 400, 1500 and the scores 0, 399, 400, 1500 the maximum is counted in the top
  bin.
\<close>

theorem maximum_below_last_bound_raises:
  "rivals2_plot True [100] = Inl ValueError \<and>
   rivals2_plot False [100] = Inl ValueError \<and>
   rivals2_plot True [1499] = Inl ValueError \<and>
   rivals2_plot False [1499] = Inl ValueError \<and>
   rank_counts True [0, 400, 1500] [''A'', ''B'', ''C''] [0, 399, 400, 1500]
     = Inr [(''A'', 2), (''B'', 1), (''C'', 1)]"
  by code_simp


text \<open>
  Claim C7. A percentage is the count over the total, times 100: 3 and 1 out of 4 give 75
  and 25 in both plots. With the total 0, \<^verbatim>\<open>rivals2_plot\<close> gives 0 and
  \<^verbatim>\<open>rivals2_line_plot\<close>, which has no test of the total, gives NaN: so it does
  for the empty dataset, where pandas lets the NaN edge pass. The non-empty dataset 3, 7
  gets no percentages: the cut raises ValueError, its maximum being below 1500.
\<close>

theorem line_plot_percentage_unguarded:
  "division_percentage 0 0 = NaN \<and> bar_percentage 0 0 = Num 0 \<and>
   bar_percentage 3 4 = Num 75 \<and> bar_percentage 1 4 = Num 25 \<and>
   division_percentage 3 4 = Num 75 \<and> division_percentage 1 4 = Num 25 \<and>
   map_sum id (map (\<lambda>(l, c, p, t). p)) (rivals2_line_plot True []) = Inr (replicate 7 NaN) \<and>
   rivals2_line_plot True [3, 7] = Inl ValueError \<and>
   rivals2_line_plot False [3, 7] = Inl ValueError"
  by code_simp



text \<open>
  Whenever the total is positive the percentages of the bars add up to 100.
\<close>

lemma bar_percentage_pos: "0 < t \<Longrightarrow> bar_percentage c t = division_percentage c t"
  by (simp add: bar_percentage_def division_percentage_def)

lemma bar_percentages_sum_100:
  assumes "0 < series_sum rc"
  shows "np_sum (map (\<lambda>(l, c). bar_percentage c (series_sum rc)) rc) = Num 100"
proof -
  let ?t = "series_sum rc"
  from assms have nz: "rat_of_nat ?t \<noteq> 0" by simp
  have "map (\<lambda>(l, c). bar_percentage c ?t) rc = map (\<lambda>c. division_percentage c ?t) (map snd rc)"
    by (simp add: bar_percentage_pos [OF assms] case_prod_unfold comp_def)
  then have "np_sum (map (\<lambda>(l, c). bar_percentage c ?t) rc)
      = Num (rat_of_nat (sum_list (map snd rc)) / rat_of_nat ?t * 100)"
    by (simp only: np_sum_percentages_pos [OF assms])
  also have "\<dots> = Num 100" using nz by (simp add: series_sum_def)
  finally show ?thesis .
qed

subsection \<open>Every score in one bin\<close>

text \<open>
  With strictly increasing edges a score between two neighbouring edges, the lower one
  included and the upper one not, gets the label of that interval.
\<close>

lemma searchsorted_right_Edge:
  "searchsorted_right (map Edge bs) x = length (takeWhile (\<lambda>b. b \<le> x) bs)"
  by (simp add: searchsorted_right_def takeWhile_map comp_def)

lemma searchsorted_right_interval:
  assumes sorted: "sorted_wrt (<) bs" and i: "Suc i < length bs"
    and lo: "bs ! i \<le> x" and hi: "x < bs ! Suc i"
  shows "searchsorted_right (map Edge bs) x = Suc i"
proof -
  have "takeWhile (\<lambda>b. b \<le> x) bs = take (Suc i) bs"
  proof (rule takeWhile_eq_take_P_nth)
    fix j assume "j < Suc i" and "j < length bs"
    then have "bs ! j \<le> bs ! i"
      using sorted i by (cases "j = i") (auto simp: sorted_wrt_iff_nth_less less_imp_le)
    with lo show "bs ! j \<le> x" by simp
  next
    from hi show "\<not> bs ! Suc i \<le> x" by simp
  qed
  with i show ?thesis by (simp add: searchsorted_right_Edge)
qed

lemma categorize_interval:
  assumes "sorted_wrt (<) bs" and "length labels + 1 = length bs" and "i < length labels"
    and "bs ! i \<le> x" and "x < bs ! Suc i"
  shows "categorize (map Edge bs) labels x = Some (labels ! i)"
proof -
  from assms(2,3) have i: "Suc i < length bs" by simp
  from searchsorted_right_interval [OF assms(1) i assms(4,5)] i show ?thesis
    by (simp add: categorize_def)
qed

lemma interval_exists:
  fixes bs :: "int list"
  assumes "bs \<noteq> []" and "hd bs \<le> x" and "x < last bs"
  shows "\<exists>i. Suc i < length bs \<and> bs ! i \<le> x \<and> x < bs ! Suc i"
  using assms
proof (induction bs rule: induct_list012)
  case 1
  then show ?case by simp
next
  case (2 b)
  then show ?case by simp
next
  case (3 a b bs)
  show ?case
  proof (cases "x < b")
    case True
    with 3(4) have "Suc 0 < length (a # b # bs) \<and> (a # b # bs) ! 0 \<le> x \<and> x < (a # b # bs) ! Suc 0"
      by simp
    then show ?thesis by blast
  next
    case False
    with 3(2) [of ] 3(5) obtain i where "Suc i < length (b # bs)" "(b # bs) ! i \<le> x"
      "x < (b # bs) ! Suc i"
      by auto
    then have "Suc (Suc i) < length (a # b # bs) \<and> (a # b # bs) ! Suc i \<le> x
        \<and> x < (a # b # bs) ! Suc (Suc i)" by simp
    then show ?thesis by blast
  qed
qed

lemma sum_count_list_distinct:
  assumes "distinct labels"
  shows "sum_list (map (\<lambda>l. count_list cats (Some l)) labels)
           = length (filter (\<lambda>c. c \<in> Some ` set labels) cats)"
proof (induction cats)
  case Nil
  then show ?case by simp
next
  case (Cons c cats)
  have one: "sum_list (map (\<lambda>l. if c = Some l then 1 else 0) labels)
               = (if c \<in> Some ` set labels then 1 else (0::nat))"
    using assms by (induction labels) auto
  have "sum_list (map (\<lambda>l. count_list (c # cats) (Some l)) labels)
      = sum_list (map (\<lambda>l. count_list cats (Some l)) labels)
        + sum_list (map (\<lambda>l. if c = Some l then 1 else 0) labels)"
    by (induction labels) auto
  with Cons one show ?case by simp
qed

text \<open>
  When the lower bounds increase strictly, no score is below the first of them and the
  maximum is not below the last, every score is counted once: the counts add up to the
  number of scores. For \<^verbatim>\<open>rivals2_plot\<close> that is a maximum of at least 1500 and
  no negative score, and then the percentages add up to 100.
\<close>

lemma bins_monotonic_sorted:
  "sorted_wrt (<) bs \<Longrightarrow> bins_monotonic nan_ok (map Edge bs)"
  by (induction bs rule: induct_list012) auto

lemma bin_edges_of_Max:
  assumes "scores \<noteq> []"
  shows "bin_edges_of lowers scores = map Edge (lowers @ [Max (set scores) + 1])"
  using assms by (simp add: bin_edges_of_def score_max_Max)

lemma strict_sorted_snoc:
  fixes lowers :: "int list"
  assumes "sorted_wrt (<) lowers" and "lowers \<noteq> []" and "last lowers < b"
  shows "sorted_wrt (<) (lowers @ [b])"
proof -
  have "x < b" if "x \<in> set lowers" for x
  proof -
    from assms(1) have "sorted lowers" by (simp add: strict_sorted_iff)
    from that obtain i where "i < length lowers" "x = lowers ! i" by (auto simp: in_set_conv_nth)
    with \<open>sorted lowers\<close> assms(2) have "x \<le> last lowers"
      by (simp add: last_conv_nth sorted_iff_nth_mono)
    with assms(3) show ?thesis by simp
  qed
  with assms(1) show ?thesis by (simp add: sorted_wrt_append)
qed

lemma rank_counts_total:
  assumes sorted: "sorted_wrt (<) lowers" and ne: "lowers \<noteq> []"
    and labels: "distinct bin_labels" "length bin_labels = length lowers"
    and scores: "scores \<noteq> []" "last lowers \<le> Max (set scores)" "\<forall>s \<in> set scores. hd lowers \<le> s"
  shows "\<exists>rc. rank_counts nan_ok lowers bin_labels scores = Inr rc \<and> map fst rc = bin_labels \<and>
           series_sum rc = length scores"
proof -
  let ?bs = "lowers @ [Max (set scores) + 1]"
  have edges: "bin_edges_of lowers scores = map Edge ?bs" using scores(1) by (rule bin_edges_of_Max)
  have bs: "sorted_wrt (<) ?bs" using sorted ne scores(2) by (intro strict_sorted_snoc) simp_all
  then have "distinct ?bs" by (simp only: strict_sorted_iff)
  then have dist: "distinct (map Edge ?bs)" by (simp only: distinct_map) (simp add: inj_on_def)
  have len: "length bin_labels + 1 = length ?bs" using labels(2) by simp
  let ?cats = "map (categorize (map Edge ?bs) bin_labels) scores"
  have cut: "pd_cut nan_ok (bin_edges_of lowers scores) bin_labels scores = Inr ?cats"
    unfolding edges pd_cut_def
    using bins_monotonic_sorted [OF bs, of nan_ok] dist labels(1) len by simp
  have in_bin: "categorize (map Edge ?bs) bin_labels s \<in> Some ` set bin_labels"
    if s: "s \<in> set scores" for s
  proof -
    from s scores(3) ne have lo: "hd ?bs \<le> s" by simp
    from s have "s \<le> Max (set scores)" by simp
    then have hi: "s < last ?bs" by simp
    from interval_exists [OF _ lo hi] obtain i
      where i: "Suc i < length ?bs" "?bs ! i \<le> s" "s < ?bs ! Suc i" by auto
    with len have "i < length bin_labels" by simp
    from categorize_interval [OF bs len this i(2,3)] this show ?thesis by simp
  qed
  have "series_sum (rank_counts_of bin_labels ?cats)
          = length (filter (\<lambda>c. c \<in> Some ` set bin_labels) ?cats)"
    by (simp add: series_sum_def rank_counts_of_def comp_def sum_count_list_distinct [OF labels(1)])
  also have "\<dots> = length ?cats" using in_bin by (simp add: filter_id_conv)
  finally have "series_sum (rank_counts_of bin_labels ?cats) = length scores" by simp
  with cut show ?thesis by (simp add: rank_counts_def)
qed

lemma rivals2_plot_covers:
  assumes "scores \<noteq> []" and "1500 \<le> Max (set scores)" and "\<forall>s \<in> set scores. 0 \<le> s"
  shows "\<exists>rows. rivals2_plot nan_ok scores = Inr rows \<and>
           sum_list (map (\<lambda>(l, c, p). c) rows) = length scores \<and>
           np_sum (map (\<lambda>(l, c, p). p) rows) = Num 100"
proof -
  have "\<exists>rc. rank_counts nan_ok plot_lowers plot_labels scores = Inr rc \<and>
          map fst rc = plot_labels \<and> series_sum rc = length scores"
    using assms distinct_plot_labels
    by (intro rank_counts_total) (simp_all add: plot_lowers_def plot_labels_def)
  then obtain rc where rc: "rank_counts nan_ok plot_lowers plot_labels scores = Inr rc"
    and total: "series_sum rc = length scores" by blast
  from total assms(1) have pos: "0 < series_sum rc" by simp
  let ?rows = "map (\<lambda>(l, c). (l, c, bar_percentage c (series_sum rc))) rc"
  have run: "rivals2_plot nan_ok scores = Inr ?rows"
    by (simp add: rivals2_plot_def rc Let_def)
  have counts: "sum_list (map (\<lambda>(l, c, p). c) ?rows) = series_sum rc"
    by (simp add: series_sum_def comp_def case_prod_unfold)
  have "map (\<lambda>(l, c, p). p) ?rows = map (\<lambda>(l, c). bar_percentage c (series_sum rc)) rc"
    by (simp add: comp_def case_prod_unfold)
  then have "np_sum (map (\<lambda>(l, c, p). p) ?rows) = Num 100"
    by (simp only: bar_percentages_sum_100 [OF pos])
  with run counts total show ?thesis by (intro exI [of _ ?rows]) (simp only: simp_thms)
qed

section \<open>Ingestion: facts\<close>

text \<open>The loop unfolds by its defining equation when it is evaluated.\<close>

declare download_loop.simps [code]

lemma download_step_page:
  assumes "page_at W url = Some p" and "xml_cache st = Some files"
  shows "download_step W url st =
           (Inr (p_next p),
            st\<lparr>requested := requested st @ [url], xml_cache := Some (store_page p files)\<rparr>)"
  using assms
  by (auto simp: page_at_def download_step_def store_page_def Let_def
      split: response.splits option.splits sum.splits)

lemma page_at_url: "page_at W url = Some p \<Longrightarrow> p_url p = url"
  by (auto simp: page_at_def split: response.splits option.splits sum.splits)


lemma download_loop_page:
  assumes "page_at W url = Some p" and "xml_cache st = Some files"
  shows "download_loop W (Some url) st =
           download_loop W (p_next p)
             (st\<lparr>requested := requested st @ [url], xml_cache := Some (store_page p files)\<rparr>)"
  by (subst download_loop.simps) (simp add: download_step_page [OF assms])

lemma xml_cache_update_same:
  "xml_cache st = Some files \<Longrightarrow> st\<lparr>xml_cache := Some files\<rparr> = st"
  by (cases st) simp

lemma download_loop_serves:
  assumes "serves W loc ps fin" and "xml_cache st = Some files"
  shows "download_loop W loc st =
           download_loop W fin
             (st\<lparr>requested := requested st @ map p_url ps,
                 xml_cache := Some (fold store_page ps files)\<rparr>)"
  using assms
proof (induction ps arbitrary: loc st files)
  case Nil
  then show ?case by (simp add: xml_cache_update_same)
next
  case (Cons p ps)
  from Cons.prems(1) obtain url where loc: "loc = Some url"
    and p: "page_at W url = Some p" and rest: "serves W (p_next p) ps fin"
    by (cases loc) auto
  let ?st = "st\<lparr>requested := requested st @ [url], xml_cache := Some (store_page p files)\<rparr>"
  have "xml_cache ?st = Some (store_page p files)" by simp
  from Cons.IH [OF rest this] download_loop_page [OF p Cons.prems(2)] page_at_url [OF p]
  show ?case by (simp add: loc)
qed

lemma download_step_failed:
  "http_get W url = ConnectionFailed \<Longrightarrow>
   download_step W url st = (Inl RequestException, st\<lparr>requested := requested st @ [url]\<rparr>)"
  by (simp add: download_step_def)

lemma download_loop_failed:
  "http_get W url = ConnectionFailed \<Longrightarrow>
   download_loop W (Some url) st
     = Some (Inl RequestException, st\<lparr>requested := requested st @ [url]\<rparr>)"
  by (subst download_loop.simps) (simp add: download_step_failed)


lemma serves_first:
  "serves W (Some url) (p # ps) fin \<Longrightarrow> p_url p = url"
  by (auto simp: page_at_url)

lemma download_step_keeps_directory:
  assumes "download_step W url st = (r, st')" and "xml_cache st \<noteq> None"
  shows "xml_cache st' \<noteq> None \<and> r \<noteq> Inl FileNotFoundError"
  using assms
  by (auto simp: download_step_def find_text_strip_def next_request_url_def Let_def
      split: response.splits option.splits sum.splits)

lemma download_step_requested:
  "download_step W url st = (r, st') \<Longrightarrow> requested st' = requested st @ [url]"
  by (auto simp: download_step_def Let_def split: response.splits option.splits sum.splits)

lemma download_step_df_cache:
  "download_step W url st = (r, st') \<Longrightarrow> df_cache st' = df_cache st"
  by (auto simp: download_step_def Let_def split: response.splits option.splits sum.splits)

lemma download_loop_keeps_directory:
  assumes "download_loop W loc st = Some y"
  shows "xml_cache st \<noteq> None \<longrightarrow> xml_cache (snd y) \<noteq> None \<and> fst y \<noteq> Inl FileNotFoundError"
proof (rule download_loop.raw_induct [OF _ assms], goal_cases)
  case (1 loop W loc st y)
  show ?case
  proof (cases loc)
    case None
    with 1(2) show ?thesis by auto
  next
    case (Some url)
    obtain r st1 where step: "download_step W url st = (r, st1)" by (cases "download_step W url st")
    show ?thesis
    proof (cases r)
      case (Inl e)
      with 1(2) Some step download_step_keeps_directory [OF step] show ?thesis by auto
    next
      case (Inr nxt)
      with 1(2) Some step have "loop W nxt st1 = Some y" by simp
      from 1(1) [OF this] download_step_keeps_directory [OF step] show ?thesis by auto
    qed
  qed
qed

lemma download_loop_requested:
  assumes "download_loop W loc st = Some y"
  shows "\<exists>more. requested (snd y) = requested st @ more \<and>
           (\<forall>url. loc = Some url \<longrightarrow> (\<exists>m. more = url # m))"
proof (rule download_loop.raw_induct [OF _ assms], goal_cases)
  case (1 loop W loc st y)
  show ?case
  proof (cases loc)
    case None
    with 1(2) show ?thesis by auto
  next
    case (Some url)
    obtain r st1 where step: "download_step W url st = (r, st1)" by (cases "download_step W url st")
    note req = download_step_requested [OF step]
    show ?thesis
    proof (cases r)
      case (Inl e)
      with 1(2) Some step req show ?thesis by auto
    next
      case (Inr nxt)
      with 1(2) Some step have "loop W nxt st1 = Some y" by simp
      from 1(1) [OF this] obtain more where "requested (snd y) = requested st1 @ more" by blast
      with req Some show ?thesis by simp
    qed
  qed
qed

lemma length_listdir:
  "xml_cache st = Some files \<Longrightarrow> listdir W st = Inr (sort_key (dir_order W) (map fst files))"
  by (simp add: listdir_def)

text \<open>
  Claim C3. When the directory of pages holds anything at all, a complete set of pages
  or not, \<^verbatim>\<open>get_leaderboard_xml\<close> returns at once: the state it leaves is the
  state it found, so no request was made and no file written.
\<close>

theorem warm_cache_is_noop:
  assumes "xml_cache st = Some files" and "files \<noteq> []"
  shows "get_leaderboard_xml W st = Some (Inr (), st)"
  using assms by (simp add: get_leaderboard_xml_def makedirs_def listdir_def)

text \<open>
  Claim C10. When the directory of pages does not exist, \<^verbatim>\<open>get_leaderboard_xml\<close>
  creates it and runs the whole download from the empty directory: the first
  request goes to the leaderboard URL. Whenever it returns, normally or with an
  exception, the directory exists and the exception is not that of a missing directory.
\<close>

theorem missing_directory_is_created:
  assumes "xml_cache st = None"
  shows "get_leaderboard_xml W st = download_xml W (st\<lparr>xml_cache := Some []\<rparr>) \<and>
         (\<forall>r st'. get_leaderboard_xml W st = Some (r, st') \<longrightarrow>
            xml_cache st' \<noteq> None \<and> r \<noteq> Inl FileNotFoundError \<and>
            (\<exists>more. requested st' = requested st @ leaderboard_url # more))"
proof (intro conjI allI impI)
  show eq: "get_leaderboard_xml W st = download_xml W (st\<lparr>xml_cache := Some []\<rparr>)"
    using assms by (simp add: get_leaderboard_xml_def makedirs_def listdir_def)
  fix r st'
  assume "get_leaderboard_xml W st = Some (r, st')"
  with eq have run: "download_loop W (Some leaderboard_url) (st\<lparr>xml_cache := Some []\<rparr>) = Some (r, st')"
    by (simp add: download_xml_def)
  from download_loop_keeps_directory [OF run]
  show "xml_cache st' \<noteq> None" and "r \<noteq> Inl FileNotFoundError" by simp_all
  from download_loop_requested [OF run]
  show "\<exists>more. requested st' = requested st @ leaderboard_url # more" by auto
qed


text \<open>
  Claim C5, as the code has it. A request that fails in transport raises, and the status
  code of a response is never read. When the server gives the pages \<open>ps\<close> and the
  request that follows them fails in transport, \<^verbatim>\<open>download_xml\<close> ends with that
  exception: the directory then holds the pages \<open>ps\<close> written into what it held
  before and nothing more, and the failed URL is the last one requested.
\<close>

theorem transport_failure_aborts_run:
  assumes "serves W (Some leaderboard_url) ps (Some url)"
    and "http_get W url = ConnectionFailed"
    and "xml_cache st = Some files"
  shows "download_xml W st =
           Some (Inl RequestException,
                 st\<lparr>requested := requested st @ map p_url ps @ [url],
                     xml_cache := Some (fold store_page ps files)\<rparr>)"
  using download_loop_serves [OF assms(1,3)] download_loop_failed [OF assms(2)]
  by (simp add: download_xml_def)




theorem warm_cache_is_noop_witness:
  "xml_cache partial_cache = Some [(''1-2.xml'', ''<page 1-2>'')] \<and>
   [(''1-2.xml'', ''<page 1-2>'')] \<noteq> ([] :: (string \<times> string) list) \<and>
   get_leaderboard_xml failing_server partial_cache = Some (Inr (), partial_cache) \<and>
   requested partial_cache = []"
proof -
  have h: "xml_cache partial_cache = Some [(''1-2.xml'', ''<page 1-2>'')]"
    by (simp add: partial_cache_def)
  have n: "[(''1-2.xml'', ''<page 1-2>'')] \<noteq> ([] :: (string \<times> string) list)" by simp
  from warm_cache_is_noop [OF h n, of failing_server] h show ?thesis
    by (simp add: partial_cache_def)
qed

theorem missing_directory_is_created_witness:
  "xml_cache no_cache = None \<and>
   get_leaderboard_xml two_page_server no_cache =
     Some (Inr (),
           \<lparr>xml_cache = Some [(''1-2.xml'', ''<page 1-2>''), (''3-4.xml'', ''<page 3-4>'')],
            df_cache = None,
            requested = [leaderboard_url, ''https://example.org/2'']\<rparr>) \<and>
   get_leaderboard_xml two_page_server no_cache
     = download_xml two_page_server (no_cache\<lparr>xml_cache := Some []\<rparr>)"
proof -
  have h: "xml_cache no_cache = None" by (simp add: no_cache_def)
  have run: "get_leaderboard_xml two_page_server no_cache =
     Some (Inr (),
           \<lparr>xml_cache = Some [(''1-2.xml'', ''<page 1-2>''), (''3-4.xml'', ''<page 3-4>'')],
            df_cache = None,
            requested = [leaderboard_url, ''https://example.org/2'']\<rparr>)"
    by code_simp
  from missing_directory_is_created [OF h, of two_page_server] h run show ?thesis by simp
qed


theorem transport_failure_aborts_run_witness:
  "serves failing_server (Some leaderboard_url) [page_1_2] (Some ''https://example.org/2'') \<and>
   http_get failing_server ''https://example.org/2'' = ConnectionFailed \<and>
   xml_cache empty_cache = Some [] \<and>
   download_xml failing_server empty_cache =
     Some (Inl RequestException,
           \<lparr>xml_cache = Some [(''1-2.xml'', ''<page 1-2>'')], df_cache = None,
            requested = [leaderboard_url, ''https://example.org/2'']\<rparr>)"
proof -
  have s: "serves failing_server (Some leaderboard_url) [page_1_2] (Some ''https://example.org/2'')"
    by code_simp
  have f: "http_get failing_server ''https://example.org/2'' = ConnectionFailed"
    by code_simp
  have h: "xml_cache empty_cache = Some []" by (simp add: empty_cache_def)
  have st: "empty_cache\<lparr>requested := requested empty_cache @ map p_url [page_1_2]
                 @ [''https://example.org/2''],
      xml_cache := Some (fold store_page [page_1_2] [])\<rparr>
      = \<lparr>xml_cache = Some [(''1-2.xml'', ''<page 1-2>'')], df_cache = None,
            requested = [leaderboard_url, ''https://example.org/2'']\<rparr>"
    by (simp add: empty_cache_def page_1_2_def store_page_def page_file_def)
  from transport_failure_aborts_run [OF s f h] s f h show ?thesis
    by (simp only: st)
qed

text \<open>
  Claim C5 says that a response with a status that is not a success makes the fetch fail.
  A second page that comes with status 500 is parsed and written like any other, and the
  run ends normally.
\<close>

theorem non_success_status_is_not_an_error:
  "http_get status_500_server ''https://example.org/2'' = Response 500 ''<page 3-4>'' \<and>
   download_xml status_500_server empty_cache =
     Some (Inr (),
           \<lparr>xml_cache = Some [(''1-2.xml'', ''<page 1-2>''), (''3-4.xml'', ''<page 3-4>'')],
            df_cache = None,
            requested = [leaderboard_url, ''https://example.org/2'']\<rparr>)"
  by code_simp


end
